theory Spec2Isabelle
  imports Main "HOL-Library.AList" "HOL-Library.Multiset"
begin

section \<open>Data model of \<^verbatim>\<open>kgpy/sampling.py\<close>\<close>

text \<open>
  A triplet is a Python tuple \<^verbatim>\<open>(head, relation, tail)\<close> of integers. The keys of
  \<^verbatim>\<open>self.index\<close> are Python tuples that mix strings and integers:
  \<^verbatim>\<open>("head", r, t)\<close>, \<^verbatim>\<open>("tail", r, h)\<close> or, in inverse mode, \<^verbatim>\<open>(r, h)\<close>. A key is
  therefore a list of Python values. The index is a \<^verbatim>\<open>defaultdict(list)\<close>; Python
  dictionaries keep insertion order, and \<^verbatim>\<open>self.keys\<close> is read off that order, so the
  index is an association list with distinct keys.
\<close>

type_synonym triplet = "int \<times> int \<times> int"

datatype pyval = PStr string | PInt int

type_synonym key = "pyval list"

type_synonym index = "(key \<times> int list) list"

datatype error =
    StopIteration
  | AttributeError
  | ZeroDivisionError
  | IndexError
  | ValueError
  | RuntimeError
  | InvalidBatch
  | InvalidConfiguration
  | EmptyDataset

subsection \<open>The \<^verbatim>\<open>defaultdict(list)\<close>\<close>

text \<open>
  \<^verbatim>\<open>d[k]\<close> on a \<^verbatim>\<open>defaultdict(list)\<close>: a present key returns its value; an absent key
  is first inserted with the value \<^verbatim>\<open>[]\<close> (at the end of the insertion order), and
  that new value is returned. The dictionary after the lookup is part of the result.
\<close>

definition dd_getitem :: "index \<Rightarrow> key \<Rightarrow> int list \<times> index" where
  "dd_getitem d k =
     (case map_of d k of
        Some v \<Rightarrow> (v, d)
      | None \<Rightarrow> ([], d @ [(k, [])]))"

text \<open>\<^verbatim>\<open>d[k].append(v)\<close>: the lookup above, then the list it returned grows in place.\<close>

definition dd_append :: "key \<Rightarrow> int \<Rightarrow> index \<Rightarrow> index" where
  "dd_append k v d =
     (case dd_getitem d k of (vs, d') \<Rightarrow> AList.update k (vs @ [v]) d')"

subsection \<open>\<^verbatim>\<open>Sampler._build_index\<close>\<close>

text \<open>
  \<^verbatim>\<open>
  for t in self.triplets:
      if self.inverse:
          self.index[(t[1], t[0])].append(t[2])
      else:
          self.index[("head", t[1], t[2])].append(t[0])
          self.index[("tail", t[1], t[0])].append(t[2])
  \<close>
\<close>

fun index_insert :: "bool \<Rightarrow> triplet \<Rightarrow> index \<Rightarrow> index" where
  "index_insert invm (h, r, t) d =
     (if invm then dd_append [PInt r, PInt h] t d
      else dd_append [PStr ''tail'', PInt r, PInt h] t
             (dd_append [PStr ''head'', PInt r, PInt t] h d))"

fun index_loop :: "bool \<Rightarrow> triplet list \<Rightarrow> index \<Rightarrow> index" where
  "index_loop invm [] d = d"
| "index_loop invm (x # xs) d = index_loop invm xs (index_insert invm x d)"

text \<open>
  \<^verbatim>\<open>
  for k, v in self.index.items():
      self.index[k] = list(set(v))
  \<close>
  Every value is replaced by a list of its distinct elements; the keys and their order
  stay. The order in which Python lists a set is an implementation detail; the model
  takes \<^const>\<open>remdups\<close>, and every statement below reads a bucket through \<^const>\<open>set\<close>.
\<close>

definition dedup_index :: "index \<Rightarrow> index" where
  "dedup_index d = map (\<lambda>(k, v). (k, remdups v)) d"

definition build_index :: "bool \<Rightarrow> triplet list \<Rightarrow> index" where
  "build_index invm ts = dedup_index (index_loop invm ts [])"

text \<open>The entities stored under a key, as a set; no entities for an absent key.\<close>

definition bucket :: "index \<Rightarrow> key \<Rightarrow> int set" where
  "bucket d k = (case map_of d k of None \<Rightarrow> {} | Some v \<Rightarrow> set v)"


text \<open>
  What one triplet puts into the index: the entity \<open>e\<close> it adds under the key \<open>k\<close>.
  This is the reading of the loop body of \<^verbatim>\<open>_build_index\<close> used to state its result.
\<close>

fun contributes :: "bool \<Rightarrow> triplet \<Rightarrow> key \<Rightarrow> int \<Rightarrow> bool" where
  "contributes invm (h, r, t) k e \<longleftrightarrow>
     (if invm then k = [PInt r, PInt h] \<and> e = t
      else (k = [PStr ''head'', PInt r, PInt t] \<and> e = h) \<or>
           (k = [PStr ''tail'', PInt r, PInt h] \<and> e = t))"


section \<open>Ambient state\<close>

text \<open>
  The module draws from the global generators of \<^verbatim>\<open>random\<close> and \<^verbatim>\<open>numpy.random\<close>. The
  model makes the randomness a parameter: a fixed stream \<open>g\<close> of raw draws, and in the
  state the number of draws consumed so far. Every statement below holds for every
  stream.

  The pairwise sampler builds integer tensors of shape \<^verbatim>\<open>[b, 3]\<close> and iterates over their
  rows; a row obtained by iterating over a tensor is a view that shares the tensor's
  storage, so writing into it would change the tensor. Rows therefore live in a store: a
  tensor is the list of the addresses of its rows, \<open>heap\<close> gives the contents of a row,
  and \<open>next_addr\<close> is the first address not yet allocated.

  \<^verbatim>\<open>torch.Tensor(...).long()\<close> goes through 32-bit floats; the model takes the conversion
  to be exact, which it is for identifiers of magnitude up to \<open>2^24\<close>. The \<^verbatim>\<open>device\<close>
  argument only places tensors and is left out.
\<close>

type_synonym addr = nat

record world =
  heap :: "addr \<Rightarrow> triplet"
  next_addr :: addr
  drawn :: nat

text \<open>A new tensor holding the given rows: fresh consecutive addresses.\<close>

fun new_tensor :: "triplet list \<Rightarrow> world \<Rightarrow> addr list \<times> world" where
  "new_tensor [] w = ([], w)"
| "new_tensor (x # xs) w =
     (let a = next_addr w;
          w1 = w\<lparr>heap := (heap w)(a := x), next_addr := Suc a\<rparr>
      in case new_tensor xs w1 of (as, w2) \<Rightarrow> (a # as, w2))"


text \<open>\<^verbatim>\<open>copy.deepcopy(t)\<close> of a row: a new row with the same contents.\<close>

definition deepcopy :: "addr \<Rightarrow> world \<Rightarrow> addr \<times> world" where
  "deepcopy t w =
     (let a = next_addr w
      in (a, w\<lparr>heap := (heap w)(a := heap w t), next_addr := Suc a\<rparr>))"

text \<open>\<^verbatim>\<open>t[c]\<close> and \<^verbatim>\<open>t[c] = v\<close> on a row of three entries.\<close>

fun getitem :: "triplet \<Rightarrow> nat \<Rightarrow> error + int" where
  "getitem (h, r, t) c =
     (if c = 0 then Inr h else if c = 1 then Inr r else if c = 2 then Inr t
      else Inl IndexError)"

fun setitem :: "triplet \<Rightarrow> nat \<Rightarrow> int \<Rightarrow> error + triplet" where
  "setitem (h, r, t) c v =
     (if c = 0 then Inr (v, r, t) else if c = 1 then Inr (h, v, t)
      else if c = 2 then Inr (h, r, v) else Inl IndexError)"

definition store_item :: "addr \<Rightarrow> nat \<Rightarrow> int \<Rightarrow> world \<Rightarrow> error + world" where
  "store_item a c v w =
     (case setitem (heap w a) c v of
        Inl e \<Rightarrow> Inl e
      | Inr row \<Rightarrow> Inr (w\<lparr>heap := (heap w)(a := row)\<rparr>))"

text \<open>\<^verbatim>\<open>random.choice(xs)\<close> on a non-empty list: one draw selects the position.\<close>

definition random_choice :: "(nat \<Rightarrow> nat) \<Rightarrow> 'a list \<Rightarrow> world \<Rightarrow> (error + 'a) \<times> world" where
  "random_choice g xs w =
     (if xs = [] then (Inl IndexError, w)
      else (Inr (xs ! (g (drawn w) mod length xs)), w\<lparr>drawn := Suc (drawn w)\<rparr>))"

text \<open>
  \<^verbatim>\<open>np.random.shuffle(x)\<close> on a list, in place:
  \<^verbatim>\<open>
  for i in reversed(range(1, n)):
      j = random_interval(i)        # 0 <= j <= i
      x[i], x[j] = x[j], x[i]
  \<close>
\<close>

fun shuffle_loop :: "(nat \<Rightarrow> nat) \<Rightarrow> nat \<Rightarrow> 'a list \<Rightarrow> nat \<Rightarrow> 'a list \<times> nat" where
  "shuffle_loop g 0 xs d = (xs, d)"
| "shuffle_loop g (Suc k) xs d =
     (let i = Suc k;
          j = g d mod (Suc i)
      in shuffle_loop g k (xs[i := xs ! j, j := xs ! i]) (Suc d))"

definition np_random_shuffle :: "(nat \<Rightarrow> nat) \<Rightarrow> 'a list \<Rightarrow> world \<Rightarrow> 'a list \<times> world" where
  "np_random_shuffle g xs w =
     (case shuffle_loop g (length xs - 1) xs (drawn w) of
        (ys, d) \<Rightarrow> (ys, w\<lparr>drawn := d\<rparr>))"

text \<open>
  Modelled from the spec: \<^verbatim>\<open>utils.randint_exclude(begin, end, exclude)\<close>; the module
  \<^verbatim>\<open>kgpy.utils\<close> is not among the sources. The specification asks for a draw from
  \<open>[begin, end)\<close> that excludes the given value, by rejection or by exclusion-aware
  sampling, and for the failure \<open>InvalidBatch\<close> when fewer than two entities exist.
  The model is the exclusion-aware draw: one of \<open>end - begin - 1\<close> values, shifted past
  the excluded one.
\<close>

definition randint_exclude ::
  "(nat \<Rightarrow> nat) \<Rightarrow> int \<Rightarrow> int \<Rightarrow> int \<Rightarrow> world \<Rightarrow> error + (int \<times> world)" where
  "randint_exclude g lo hi exclude w =
     (if hi - lo < 2 then Inl InvalidBatch
      else let k = lo + int (g (drawn w)) mod (hi - lo - 1);
               x = (if exclude \<le> k then k + 1 else k)
           in Inr (x, w\<lparr>drawn := Suc (drawn w)\<rparr>))"

text \<open>
  Python's slice \<^verbatim>\<open>xs[i:j]\<close>: a negative bound counts from the end, and both bounds are
  clamped to the list.
\<close>

definition py_slice :: "'a list \<Rightarrow> int \<Rightarrow> int \<Rightarrow> 'a list" where
  "py_slice xs i j =
     (let n = int (length xs);
          a = (if i < 0 then max (i + n) 0 else min i n);
          b = (if j < 0 then max (j + n) 0 else min j n)
      in take (nat (b - a)) (drop (nat a) xs))"


section \<open>\<^verbatim>\<open>class Sampler\<close>\<close>

text \<open>
  The attributes of a sampler. \<^verbatim>\<open>trip_iter\<close> does not exist before \<^verbatim>\<open>__iter__\<close> or
  \<^verbatim>\<open>reset\<close> has run, which is the value \<open>None\<close>. The subclass \<^verbatim>\<open>One_to_K\<close> adds
  \<^verbatim>\<open>num_negative\<close>; \<^verbatim>\<open>One_to_N\<close> adds nothing.
\<close>

record sampler =
  bs :: int
  triplets :: "triplet list"
  num_ents :: int
  inverse_mode :: bool
  index :: index
  keys :: "key list"
  trip_iter :: "int option"

record one_to_k = sampler +
  num_negative :: int

text \<open>
  \<^verbatim>\<open>Sampler.__init__\<close>: stores its arguments, builds the index and copies the keys of
  the index, in insertion order, into \<^verbatim>\<open>self.keys\<close>. The last argument is what the
  subclass adds to the object.
\<close>

definition Sampler_init ::
  "triplet list \<Rightarrow> int \<Rightarrow> int \<Rightarrow> bool \<Rightarrow> 'a \<Rightarrow> 'a sampler_scheme" where
  "Sampler_init ts batch_size ne invm m =
     (let d = build_index invm ts
      in \<lparr>bs = batch_size, triplets = ts, num_ents = ne, inverse_mode = invm,
          index = d, keys = map fst d, trip_iter = None, \<dots> = m\<rparr>)"


definition reset ::
  "('a sampler_scheme \<times> world \<Rightarrow> 'a sampler_scheme \<times> world) \<Rightarrow>
   'a sampler_scheme \<times> world \<Rightarrow> 'a sampler_scheme \<times> world" where
  "reset shuffle sw = (case sw of (s, w) \<Rightarrow> shuffle (s\<lparr>trip_iter := Some 0\<rparr>, w))"

subsection \<open>\<^verbatim>\<open>Sampler._get_labels\<close>\<close>

text \<open>
  \<^verbatim>\<open>y[i, lbls] = 1\<close> on row \<open>i\<close> of the label matrix: every position listed in \<^verbatim>\<open>lbls\<close>
  becomes 1. A negative position counts from the end of the row; a position outside the
  row raises.
\<close>

fun index_put :: "int list \<Rightarrow> int list \<Rightarrow> error + int list" where
  "index_put row [] = Inr row"
| "index_put row (e # es) =
     (let n = int (length row)
      in if e < - n \<or> n \<le> e then Inl IndexError
         else index_put (row[nat (if e < 0 then e + n else e) := 1]) es)"

text \<open>
  \<^verbatim>\<open>
  for i, x in enumerate(samples):
      lbls = self.index[tuple(x)]
      y[i, lbls] = 1
  \<close>
  The lookup is the \<^verbatim>\<open>defaultdict\<close>'s, so the loop carries the index along.
\<close>

fun get_labels_loop ::
  "nat \<Rightarrow> key list \<Rightarrow> int list list \<Rightarrow> index \<Rightarrow> error + (int list list \<times> index)" where
  "get_labels_loop i [] y d = Inr (y, d)"
| "get_labels_loop i (x # xs) y d =
     (case dd_getitem d x of
        (lbls, d') \<Rightarrow>
          (case index_put (y ! i) lbls of
             Inl e \<Rightarrow> Inl e
           | Inr row \<Rightarrow> get_labels_loop (Suc i) xs (y[i := row]) d'))"

text \<open>
  \<^verbatim>\<open>y = torch.zeros(samples.shape[0], self.num_ents, ...)\<close> raises on a negative size.
  The entries are the 16-bit floats 0 and 1, modelled as the integers 0 and 1.
\<close>

definition get_labels ::
  "'a sampler_scheme \<Rightarrow> key list \<Rightarrow> error + (int list list \<times> 'a sampler_scheme)" where
  "get_labels s samples =
     (if num_ents s < 0 then Inl RuntimeError
      else
        (case get_labels_loop 0 samples
                (replicate (length samples) (replicate (nat (num_ents s)) 0)) (index s) of
           Inl e \<Rightarrow> Inl e
         | Inr (y, d) \<Rightarrow> Inr (y, s\<lparr>index := d\<rparr>)))"

section \<open>\<^verbatim>\<open>class One_to_K\<close>\<close>

definition One_to_K_shuffle :: "(nat \<Rightarrow> nat) \<Rightarrow> one_to_k \<times> world \<Rightarrow> one_to_k \<times> world" where
  "One_to_K_shuffle g sw =
     (case sw of (s, w) \<Rightarrow>
        (case np_random_shuffle g (triplets s) w of
           (ts, w') \<Rightarrow> (s\<lparr>triplets := ts\<rparr>, w')))"

text \<open>
  \<^verbatim>\<open>One_to_K.__init__\<close>. Neither it nor \<^verbatim>\<open>Sampler.__init__\<close> checks an argument or
  raises; the result type has the error side only so that this can be said.
\<close>

definition One_to_K_init ::
  "(nat \<Rightarrow> nat) \<Rightarrow> triplet list \<Rightarrow> int \<Rightarrow> int \<Rightarrow> int \<Rightarrow> bool \<Rightarrow> world \<Rightarrow>
   error + (one_to_k \<times> world)" where
  "One_to_K_init g ts batch_size ne nn invm w =
     Inr (One_to_K_shuffle g
            (Sampler_init ts batch_size ne invm \<lparr>num_negative = nn\<rparr>, w))"

definition One_to_K_reset :: "(nat \<Rightarrow> nat) \<Rightarrow> one_to_k \<times> world \<Rightarrow> one_to_k \<times> world" where
  "One_to_K_reset g = reset (One_to_K_shuffle g)"



subsection \<open>\<^verbatim>\<open>One_to_K._sample_negative\<close>\<close>

text \<open>
  The body of the inner loop, for the row \<open>t\<close> of the batch:
  \<^verbatim>\<open>
  new_triplet = copy.deepcopy(t)
  head_tail = random.choice([0, 2])
  new_triplet[head_tail] = utils.randint_exclude(0, self.num_ents, t[head_tail])
  \<close>
\<close>

definition corrupt_row ::
  "(nat \<Rightarrow> nat) \<Rightarrow> int \<Rightarrow> addr \<Rightarrow> world \<Rightarrow> error + (addr \<times> world)" where
  "corrupt_row g ne t w =
     (case deepcopy t w of
        (new_triplet, w1) \<Rightarrow>
          (case random_choice g [0, 2] w1 of
             (Inl e, w2) \<Rightarrow> Inl e
           | (Inr head_tail, w2) \<Rightarrow>
               (case getitem (heap w2 t) head_tail of
                  Inl e \<Rightarrow> Inl e
                | Inr orig \<Rightarrow>
                    (case randint_exclude g 0 ne orig w2 of
                       Inl e \<Rightarrow> Inl e
                     | Inr (v, w3) \<Rightarrow>
                         (case store_item new_triplet head_tail v w3 of
                            Inl e \<Rightarrow> Inl e
                          | Inr w4 \<Rightarrow> Inr (new_triplet, w4))))))"

text \<open>\<^verbatim>\<open>for i, t in enumerate(samples): ...; corrupted_triplets.append(new_triplet)\<close>\<close>

fun corrupt_batch ::
  "(nat \<Rightarrow> nat) \<Rightarrow> int \<Rightarrow> addr list \<Rightarrow> addr list \<Rightarrow> world \<Rightarrow> error + (addr list \<times> world)" where
  "corrupt_batch g ne [] acc w = Inr (acc, w)"
| "corrupt_batch g ne (t # ts) acc w =
     (case corrupt_row g ne t w of
        Inl e \<Rightarrow> Inl e
      | Inr (a, w') \<Rightarrow> corrupt_batch g ne ts (acc @ [a]) w')"

text \<open>\<^verbatim>\<open>for _ in range(self.num_negative): ...\<close>\<close>

fun corrupt_rounds ::
  "(nat \<Rightarrow> nat) \<Rightarrow> int \<Rightarrow> addr list \<Rightarrow> nat \<Rightarrow> addr list \<Rightarrow> world \<Rightarrow>
   error + (addr list \<times> world)" where
  "corrupt_rounds g ne samples 0 acc w = Inr (acc, w)"
| "corrupt_rounds g ne samples (Suc n) acc w =
     (case corrupt_batch g ne samples acc w of
        Inl e \<Rightarrow> Inl e
      | Inr (acc', w') \<Rightarrow> corrupt_rounds g ne samples n acc' w')"

text \<open>
  \<^verbatim>\<open>torch.stack(corrupted_triplets, dim=0)\<close> raises on an empty list, and otherwise
  copies the rows into a new tensor.
\<close>

definition torch_stack :: "addr list \<Rightarrow> world \<Rightarrow> error + (addr list \<times> world)" where
  "torch_stack as w =
     (if as = [] then Inl RuntimeError else Inr (new_tensor (map (heap w) as) w))"

definition sample_negative ::
  "(nat \<Rightarrow> nat) \<Rightarrow> one_to_k \<Rightarrow> addr list \<Rightarrow> world \<Rightarrow> error + (addr list \<times> world)" where
  "sample_negative g s samples w =
     (case corrupt_rounds g (num_ents s) samples (nat (num_negative s)) [] w of
        Inl e \<Rightarrow> Inl e
      | Inr (corrupted_triplets, w') \<Rightarrow> torch_stack corrupted_triplets w')"

subsection \<open>\<^verbatim>\<open>One_to_K.__next__\<close>\<close>



section \<open>\<^verbatim>\<open>class One_to_N\<close>\<close>

subsection \<open>The array of a batch of keys\<close>

text \<open>
  \<^verbatim>\<open>np.array([list(x) for x in batch_samples])\<close> gives an array of one element type.
  Keys of integers give an integer array. Keys that hold a string (\<^verbatim>\<open>"head"\<close>,
  \<^verbatim>\<open>"tail"\<close>) give an array of strings: every integer is replaced by its decimal
  text. That is why the non-inverse branch of \<^verbatim>\<open>__next__\<close> converts the index columns
  back with \<^verbatim>\<open>astype(np.float)\<close>.
\<close>

fun digits :: "nat \<Rightarrow> string" where
  "digits n =
     (if n < 10 then [char_of (48 + n)]
      else digits (n div 10) @ [char_of (48 + n mod 10)])"

declare digits.simps [simp del]

definition str_of_int :: "int \<Rightarrow> string" where
  "str_of_int i = (if i < 0 then CHR ''-'' # digits (nat (- i)) else digits (nat i))"

fun is_str :: "pyval \<Rightarrow> bool" where
  "is_str (PStr s) = True"
| "is_str (PInt i) = False"

fun np_str :: "pyval \<Rightarrow> pyval" where
  "np_str (PStr s) = PStr s"
| "np_str (PInt i) = PStr (str_of_int i)"

definition np_array :: "key list \<Rightarrow> key list" where
  "np_array rows =
     (if list_ex is_str (concat rows) then map (map np_str) rows else rows)"

text \<open>
  Reading a number back from an array element, as \<^verbatim>\<open>astype(np.float)\<close> and
  \<^verbatim>\<open>torch.Tensor(...).long()\<close> do: an integer is itself, a string is read as a decimal
  numeral with an optional sign, and any other string raises.
\<close>

fun parse_digits :: "string \<Rightarrow> nat \<Rightarrow> nat option" where
  "parse_digits [] acc = Some acc"
| "parse_digits (c # cs) acc =
     (if 48 \<le> (of_char c :: nat) \<and> (of_char c :: nat) \<le> 57
      then parse_digits cs (10 * acc + (of_char c - 48))
      else None)"

fun to_number :: "pyval \<Rightarrow> error + int" where
  "to_number (PInt i) = Inr i"
| "to_number (PStr s) =
     (case s of
        [] \<Rightarrow> Inl ValueError
      | c # cs \<Rightarrow>
          if c = CHR ''-'' then
            (if cs = [] then Inl ValueError
             else case parse_digits cs 0 of
                    None \<Rightarrow> Inl ValueError
                  | Some n \<Rightarrow> Inr (- int n))
          else
            (case parse_digits s 0 of
               None \<Rightarrow> Inl ValueError
             | Some n \<Rightarrow> Inr (int n)))"

fun to_numbers :: "pyval list \<Rightarrow> error + int list" where
  "to_numbers [] = Inr []"
| "to_numbers (v # vs) =
     (case to_number v of
        Inl e \<Rightarrow> Inl e
      | Inr i \<Rightarrow> (case to_numbers vs of Inl e \<Rightarrow> Inl e | Inr is \<Rightarrow> Inr (i # is)))"

fun to_matrix :: "key list \<Rightarrow> error + int list list" where
  "to_matrix [] = Inr []"
| "to_matrix (r # rs) =
     (case to_numbers r of
        Inl e \<Rightarrow> Inl e
      | Inr x \<Rightarrow> (case to_matrix rs of Inl e \<Rightarrow> Inl e | Inr xs \<Rightarrow> Inr (x # xs)))"

text \<open>\<^verbatim>\<open>batch_samples[:, 0]\<close> and \<^verbatim>\<open>batch_samples[:, 1:]\<close>; an array without rows is
  one-dimensional, and the two-dimensional subscript raises on it.\<close>

fun column0 :: "key list \<Rightarrow> error + pyval list" where
  "column0 [] = Inr []"
| "column0 (r # rs) =
     (case r of
        [] \<Rightarrow> Inl IndexError
      | v # vs \<Rightarrow> (case column0 rs of Inl e \<Rightarrow> Inl e | Inr c \<Rightarrow> Inr (v # c)))"

subsection \<open>The methods\<close>

definition One_to_N_shuffle :: "(nat \<Rightarrow> nat) \<Rightarrow> sampler \<times> world \<Rightarrow> sampler \<times> world" where
  "One_to_N_shuffle g sw =
     (case sw of (s, w) \<Rightarrow>
        (case np_random_shuffle g (keys s) w of
           (ks, w') \<Rightarrow> (s\<lparr>keys := ks\<rparr>, w')))"

definition One_to_N_init ::
  "(nat \<Rightarrow> nat) \<Rightarrow> triplet list \<Rightarrow> int \<Rightarrow> int \<Rightarrow> bool \<Rightarrow> world \<Rightarrow>
   error + (sampler \<times> world)" where
  "One_to_N_init g ts batch_size ne invm w =
     Inr (One_to_N_shuffle g (Sampler_init ts batch_size ne invm (), w))"

definition One_to_N_reset :: "(nat \<Rightarrow> nat) \<Rightarrow> sampler \<times> world \<Rightarrow> sampler \<times> world" where
  "One_to_N_reset g = reset (One_to_N_shuffle g)"

text \<open>\<^verbatim>\<open>One_to_N.__len__\<close>: \<^verbatim>\<open>len(self.index) // self.bs\<close>.\<close>

definition One_to_N_len :: "sampler \<Rightarrow> error + int" where
  "One_to_N_len s =
     (if bs s = 0 then Inl ZeroDivisionError
      else Inr (int (length (index s)) div bs s))"

definition One_to_N_increment_iter :: "int \<Rightarrow> sampler \<Rightarrow> sampler" where
  "One_to_N_increment_iter p s =
     s\<lparr>trip_iter := Some (min (p + bs s) (int (length (keys s))))\<rparr>"

text \<open>
  What \<^verbatim>\<open>One_to_N.__next__\<close> returns: \<^verbatim>\<open>(batch_ix, batch_lbls)\<close> in inverse mode,
  \<^verbatim>\<open>(batch_ix, batch_lbls, trip_type)\<close> otherwise.
\<close>

record n_batch =
  batch_ix :: "int list list"
  batch_lbls :: "int list list"
  trip_type :: "pyval list option"

definition One_to_N_next :: "sampler \<Rightarrow> error + (n_batch \<times> sampler)" where
  "One_to_N_next s =
     (case trip_iter s of
        None \<Rightarrow> Inl AttributeError
      | Some p \<Rightarrow>
          if int (length (keys s)) - 1 \<le> p then Inl StopIteration
          else
            (let batch_samples =
                   np_array (py_slice (keys s) p (min (p + bs s) (int (length (keys s)))));
                 s1 = One_to_N_increment_iter p s
             in if inverse_mode s1 then
                  (case to_matrix batch_samples of
                     Inl e \<Rightarrow> Inl e
                   | Inr ix \<Rightarrow>
                       (case get_labels s1 batch_samples of
                          Inl e \<Rightarrow> Inl e
                        | Inr (lbls, s2) \<Rightarrow>
                            Inr (\<lparr>batch_ix = ix, batch_lbls = lbls, trip_type = None\<rparr>, s2)))
                else if batch_samples = [] then Inl IndexError
                else
                  (case column0 batch_samples of
                     Inl e \<Rightarrow> Inl e
                   | Inr tt \<Rightarrow>
                       (case to_matrix (map tl batch_samples) of
                          Inl e \<Rightarrow> Inl e
                        | Inr ix \<Rightarrow>
                            (case get_labels s1 batch_samples of
                               Inl e \<Rightarrow> Inl e
                             | Inr (lbls, s2) \<Rightarrow>
                                 Inr (\<lparr>batch_ix = ix, batch_lbls = lbls, trip_type = Some tt\<rparr>,
                                      s2))))))"


section \<open>Reading the results\<close>

text \<open>
  What the body of the inner loop of \<^verbatim>\<open>_sample_negative\<close> makes of a row \<open>x\<close> when the
  generators have produced \<open>d\<close> values so far: draw \<open>d\<close> picks the position (head on an
  even draw, tail on an odd one), draw \<open>d + 1\<close> picks the replacement.
\<close>

definition corrupted :: "(nat \<Rightarrow> nat) \<Rightarrow> int \<Rightarrow> triplet \<Rightarrow> nat \<Rightarrow> triplet" where
  "corrupted g ne x d =
     (case x of (h, r, t) \<Rightarrow>
        let k = int (g (Suc d)) mod (ne - 1)
        in if g d mod 2 = 0 then ((if h \<le> k then k + 1 else k), r, t)
           else (h, r, (if t \<le> k then k + 1 else k)))"


text \<open>Concrete inputs: the scenario of the specification, and small states to run it in.\<close>

definition example_stream :: "nat \<Rightarrow> nat" where
  "example_stream n = n"

definition empty_world :: world where
  "empty_world = \<lparr>heap = (\<lambda>a. (0, 0, 0)), next_addr = 0, drawn = 0\<rparr>"

definition one_row_world :: world where
  "one_row_world = \<lparr>heap = (\<lambda>a. (0, 0, 1)), next_addr = 1, drawn = 0\<rparr>"

definition example_triplets :: "triplet list" where
  "example_triplets = [(0, 0, 1), (1, 0, 2), (0, 1, 2)]"


text \<open>
  The multi-label sampler of the scenario with \<^verbatim>\<open>inverse=False\<close> (the default), after
  \<^verbatim>\<open>reset()\<close>.
\<close>

definition noninverse_example :: sampler where
  "noninverse_example =
     fst (One_to_N_reset example_stream
            (projr (One_to_N_init example_stream example_triplets 2 3 False empty_world)))"


section \<open>The index\<close>

lemma map_of_dd_append:
  "map_of (dd_append k v d) k' =
     (if k' = k then Some ((case map_of d k of None \<Rightarrow> [] | Some vs \<Rightarrow> vs) @ [v])
      else map_of d k')"
  by (auto simp: dd_append_def dd_getitem_def update_conv' map_add_def split: option.splits)

lemma bucket_dd_append:
  "bucket (dd_append k v d) k' = (if k' = k then insert v (bucket d k) else bucket d k')"
  by (auto simp: bucket_def map_of_dd_append split: option.splits)



lemma bucket_Nil: "bucket [] k = {}"
  by (simp add: bucket_def)

lemma bucket_dedup_index: "bucket (dedup_index d) k = bucket d k"
  by (induction d) (auto simp: bucket_def dedup_index_def split: option.splits)


lemma bucket_index_insert:
  "bucket (index_insert invm x d) k = bucket d k \<union> {e. contributes invm x k e}"
  by (cases x) (auto simp: bucket_dd_append)

lemma bucket_index_loop:
  "bucket (index_loop invm xs d) k = bucket d k \<union> {e. \<exists>x \<in> set xs. contributes invm x k e}"
  by (induction xs arbitrary: d) (auto simp: bucket_index_insert)

text \<open>The bucket of a key holds exactly what the triplets contribute to it.\<close>

lemma bucket_build_index:
  "bucket (build_index invm ts) k = {e. \<exists>x \<in> set ts. contributes invm x k e}"
  by (simp add: build_index_def bucket_dedup_index bucket_index_loop bucket_Nil)

lemma index_Sampler_init: "index (Sampler_init ts b ne invm m) = build_index invm ts"
  by (simp add: Sampler_init_def Let_def)










text \<open>
  C3 (as amended). For every triplet \<open>(h, r, t)\<close> given to the constructor, the index it
  builds has \<open>h\<close> under \<open>("head", r, t)\<close> and \<open>t\<close> under \<open>("tail", r, h)\<close> in non-inverse
  mode, and \<open>t\<close> under \<open>(r, h)\<close> in inverse mode. For the triplets
  \<open>[(0,0,1), (1,0,2), (0,1,2)]\<close> in non-inverse mode the buckets are
  \<open>("tail",0,0) \<mapsto> {1}\<close>, \<open>("tail",0,1) \<mapsto> {2}\<close>, \<open>("head",0,1) \<mapsto> {0}\<close>,
  \<open>("head",0,2) \<mapsto> {1}\<close>, \<open>("tail",1,0) \<mapsto> {2}\<close> and \<open>("head",1,2) \<mapsto> {0}\<close>.
\<close>

theorem build_index_correct:
  "((h, r, t) \<in> set ts \<longrightarrow>
      h \<in> bucket (index (Sampler_init ts b ne False m)) [PStr ''head'', PInt r, PInt t] \<and>
      t \<in> bucket (index (Sampler_init ts b ne False m)) [PStr ''tail'', PInt r, PInt h] \<and>
      t \<in> bucket (index (Sampler_init ts b ne True m)) [PInt r, PInt h]) \<and>
   bucket (index (Sampler_init [(0,0,1), (1,0,2), (0,1,2)] b ne False m))
      [PStr ''tail'', PInt 0, PInt 0] = {1} \<and>
   bucket (index (Sampler_init [(0,0,1), (1,0,2), (0,1,2)] b ne False m))
      [PStr ''tail'', PInt 0, PInt 1] = {2} \<and>
   bucket (index (Sampler_init [(0,0,1), (1,0,2), (0,1,2)] b ne False m))
      [PStr ''head'', PInt 0, PInt 1] = {0} \<and>
   bucket (index (Sampler_init [(0,0,1), (1,0,2), (0,1,2)] b ne False m))
      [PStr ''head'', PInt 0, PInt 2] = {1} \<and>
   bucket (index (Sampler_init [(0,0,1), (1,0,2), (0,1,2)] b ne False m))
      [PStr ''tail'', PInt 1, PInt 0] = {2} \<and>
   bucket (index (Sampler_init [(0,0,1), (1,0,2), (0,1,2)] b ne False m))
      [PStr ''head'', PInt 1, PInt 2] = {0}"
proof -
  have "h \<in> bucket (build_index False ts) [PStr ''head'', PInt r, PInt t] \<and>
        t \<in> bucket (build_index False ts) [PStr ''tail'', PInt r, PInt h] \<and>
        t \<in> bucket (build_index True ts) [PInt r, PInt h]"
    if "(h, r, t) \<in> set ts"
    using that by (auto simp: bucket_build_index intro!: bexI[of _ "(h, r, t)"])
  moreover have
    "bucket (build_index False [(0,0,1), (1,0,2), (0,1,2)]) [PStr ''tail'', PInt 0, PInt 0] = {1}"
    "bucket (build_index False [(0,0,1), (1,0,2), (0,1,2)]) [PStr ''tail'', PInt 0, PInt 1] = {2}"
    "bucket (build_index False [(0,0,1), (1,0,2), (0,1,2)]) [PStr ''head'', PInt 0, PInt 1] = {0}"
    "bucket (build_index False [(0,0,1), (1,0,2), (0,1,2)]) [PStr ''head'', PInt 0, PInt 2] = {1}"
    "bucket (build_index False [(0,0,1), (1,0,2), (0,1,2)]) [PStr ''tail'', PInt 1, PInt 0] = {2}"
    "bucket (build_index False [(0,0,1), (1,0,2), (0,1,2)]) [PStr ''head'', PInt 1, PInt 2] = {0}"
    by (auto simp: bucket_build_index)
  ultimately show ?thesis
    by (simp only: index_Sampler_init) blast
qed

theorem build_index_correct_witness:
  "(0, 0, 1) \<in> set [(0,0,1), (1,0,2), (0,1,2 :: int)] \<and>
   (0::int) \<in> bucket (index (Sampler_init [(0,0,1), (1,0,2), (0,1,2)] 2 3 False ()))
                 [PStr ''head'', PInt 0, PInt 1] \<and>
   (1::int) \<in> bucket (index (Sampler_init [(0,0,1), (1,0,2), (0,1,2)] 2 3 False ()))
                 [PStr ''tail'', PInt 0, PInt 0] \<and>
   (1::int) \<in> bucket (index (Sampler_init [(0,0,1), (1,0,2), (0,1,2)] 2 3 True ()))
                 [PInt 0, PInt 0]"
  using build_index_correct [of 0 0 1 "[(0,0,1), (1,0,2), (0,1,2)]" 2 3 "()"]
  by simp

text \<open>
  The scenario of C3 as the specification states it: the bucket of \<open>("tail", 0, 0)\<close> is
  not \<open>{1, 2}\<close>, since the triplet \<open>(0, 1, 2)\<close> has relation 1.
\<close>

theorem build_index_scenario_counterexample:
  "bucket (index (Sampler_init [(0,0,1), (1,0,2), (0,1,2)] 2 3 False ()))
     [PStr ''tail'', PInt 0, PInt 0] \<noteq> {1, 2}"
  by (auto simp: index_Sampler_init bucket_build_index)


section \<open>Shuffling and \<^verbatim>\<open>reset\<close>\<close>
lemma mset_shuffle_loop:
  "k \<le> length xs - 1 \<Longrightarrow> mset (fst (shuffle_loop g k xs d)) = mset xs"
proof (induction k arbitrary: xs d)
  case 0
  show ?case by simp
next
  case (Suc k)
  let ?j = "g d mod Suc (Suc k)"
  let ?ys = "xs[Suc k := xs ! ?j, ?j := xs ! Suc k]"
  from Suc.prems have i: "Suc k < length xs" by simp
  have "?j < Suc (Suc k)" by (rule mod_less_divisor) simp
  with i have j: "?j < length xs" by linarith
  have "mset ?ys = mset xs"
    using j i by (rule mset_swap)
  moreover have "mset (fst (shuffle_loop g k ?ys (Suc d))) = mset ?ys"
    using Suc.prems by (intro Suc.IH) simp
  ultimately show ?case by (simp add: Let_def)
qed

lemma mset_np_random_shuffle: "mset (fst (np_random_shuffle g xs w)) = mset xs"
proof -
  obtain ys d where l: "shuffle_loop g (length xs - 1) xs (drawn w) = (ys, d)"
    by (cases "shuffle_loop g (length xs - 1) xs (drawn w)")
  have "mset (fst (shuffle_loop g (length xs - 1) xs (drawn w))) = mset xs"
    by (rule mset_shuffle_loop) simp
  with l show ?thesis by (simp add: np_random_shuffle_def)
qed

lemma One_to_K_shuffle_fields:
  "fst (One_to_K_shuffle g (s, w)) = s\<lparr>triplets := fst (np_random_shuffle g (triplets s) w)\<rparr>"
  by (simp add: One_to_K_shuffle_def split: prod.splits)

lemma One_to_N_shuffle_fields:
  "fst (One_to_N_shuffle g (s, w)) = s\<lparr>keys := fst (np_random_shuffle g (keys s) w)\<rparr>"
  by (simp add: One_to_N_shuffle_def split: prod.splits)

text \<open>
  C8. \<^verbatim>\<open>reset\<close> sets the position to 0 and shuffles the sequence in place: the
  triplets of the pairwise sampler, the keys of the multi-label sampler. The shuffled
  sequence has the same multiset of items and the same length; nothing else in the
  sampler changes.
\<close>

theorem reset_shuffles:
  "trip_iter (fst (One_to_K_reset g (s, w))) = Some 0 \<and>
   mset (triplets (fst (One_to_K_reset g (s, w)))) = mset (triplets s) \<and>
   length (triplets (fst (One_to_K_reset g (s, w)))) = length (triplets s) \<and>
   fst (One_to_K_reset g (s, w)) =
     s\<lparr>trip_iter := Some 0, triplets := triplets (fst (One_to_K_reset g (s, w)))\<rparr> \<and>
   trip_iter (fst (One_to_N_reset g (s', w))) = Some 0 \<and>
   mset (keys (fst (One_to_N_reset g (s', w)))) = mset (keys s') \<and>
   length (keys (fst (One_to_N_reset g (s', w)))) = length (keys s') \<and>
   fst (One_to_N_reset g (s', w)) =
     s'\<lparr>trip_iter := Some 0, keys := keys (fst (One_to_N_reset g (s', w)))\<rparr>"
proof -
  have k: "fst (One_to_K_reset g (s, w)) =
      s\<lparr>trip_iter := Some 0, triplets := fst (np_random_shuffle g (triplets s) w)\<rparr>"
    by (simp add: One_to_K_reset_def reset_def One_to_K_shuffle_fields)
  have n: "fst (One_to_N_reset g (s', w)) =
      s'\<lparr>trip_iter := Some 0, keys := fst (np_random_shuffle g (keys s') w)\<rparr>"
    by (simp add: One_to_N_reset_def reset_def One_to_N_shuffle_fields)
  have lk: "length (fst (np_random_shuffle g (triplets s) w)) = length (triplets s)"
    using mset_np_random_shuffle[of g "triplets s" w] by (rule mset_eq_length)
  have ln: "length (fst (np_random_shuffle g (keys s') w)) = length (keys s')"
    using mset_np_random_shuffle[of g "keys s'" w] by (rule mset_eq_length)
  show ?thesis
    unfolding k n by (simp add: mset_np_random_shuffle lk ln)
qed

section \<open>Construction\<close>

text \<open>
  C6 (as amended). The constructors check nothing: for every list of triplets, the empty
  one included, and every batch size, number of entities and number of negatives they
  return a sampler that holds these arguments as given.
\<close>

theorem construction_unchecked:
  "(\<exists>s w'. One_to_K_init g ts b ne nn invm w = Inr (s, w') \<and>
      bs s = b \<and> num_ents s = ne \<and> num_negative s = nn \<and> inverse_mode s = invm \<and>
      mset (triplets s) = mset ts \<and> index s = build_index invm ts \<and> trip_iter s = None) \<and>
   (\<exists>s w'. One_to_N_init g ts b ne invm w = Inr (s, w') \<and>
      bs s = b \<and> num_ents s = ne \<and> inverse_mode s = invm \<and>
      triplets s = ts \<and> index s = build_index invm ts \<and> trip_iter s = None)"
proof -
  obtain s w' where k: "One_to_K_shuffle g (Sampler_init ts b ne invm \<lparr>num_negative = nn\<rparr>, w) = (s, w')"
    by (cases "One_to_K_shuffle g (Sampler_init ts b ne invm \<lparr>num_negative = nn\<rparr>, w)")
  from k have "s = (Sampler_init ts b ne invm \<lparr>num_negative = nn\<rparr>)
     \<lparr>triplets := fst (np_random_shuffle g ts w)\<rparr>"
    using One_to_K_shuffle_fields[of g "Sampler_init ts b ne invm \<lparr>num_negative = nn\<rparr>" w]
    by (simp add: Sampler_init_def Let_def)
  then have "bs s = b \<and> num_ents s = ne \<and> num_negative s = nn \<and> inverse_mode s = invm \<and>
      mset (triplets s) = mset ts \<and> index s = build_index invm ts \<and> trip_iter s = None"
    by (simp add: Sampler_init_def Let_def mset_np_random_shuffle)
  with k have K: "\<exists>s w'. One_to_K_init g ts b ne nn invm w = Inr (s, w') \<and>
      bs s = b \<and> num_ents s = ne \<and> num_negative s = nn \<and> inverse_mode s = invm \<and>
      mset (triplets s) = mset ts \<and> index s = build_index invm ts \<and> trip_iter s = None"
    by (simp add: One_to_K_init_def)
  obtain s w' where n: "One_to_N_shuffle g (Sampler_init ts b ne invm (), w) = (s, w')"
    by (cases "One_to_N_shuffle g (Sampler_init ts b ne invm (), w)")
  from n have "s = (Sampler_init ts b ne invm ())
     \<lparr>keys := fst (np_random_shuffle g (map fst (build_index invm ts)) w)\<rparr>"
    using One_to_N_shuffle_fields[of g "Sampler_init ts b ne invm ()" w]
    by (simp add: Sampler_init_def Let_def)
  then have "bs s = b \<and> num_ents s = ne \<and> inverse_mode s = invm \<and>
      triplets s = ts \<and> index s = build_index invm ts \<and> trip_iter s = None"
    by (simp add: Sampler_init_def Let_def)
  with n have N: "\<exists>s w'. One_to_N_init g ts b ne invm w = Inr (s, w') \<and>
      bs s = b \<and> num_ents s = ne \<and> inverse_mode s = invm \<and>
      triplets s = ts \<and> index s = build_index invm ts \<and> trip_iter s = None"
    by (simp add: One_to_N_init_def)
  from K N show ?thesis by blast
qed

text \<open>
  C6 as the specification states it fails: with no triplets, batch size 0 and no
  entities both constructors return a sampler.
\<close>

theorem construction_counterexample:
  "\<not> isl (One_to_K_init example_stream [] 0 0 1 False empty_world) \<and>
   \<not> isl (One_to_N_init example_stream [] 0 0 False empty_world)"
  by (simp add: One_to_K_init_def One_to_N_init_def)


section \<open>Negative sampling\<close>

lemma upt_shift: "[n..<Suc (n + l)] = n # [Suc n..<Suc (n + l)]"
  by (simp add: upt_conv_Cons del: upt_Suc)

lemma new_tensor_spec:
  "\<exists>w'. new_tensor xs w = ([next_addr w ..< next_addr w + length xs], w') \<and>
        next_addr w' = next_addr w + length xs \<and> drawn w' = drawn w \<and>
        (\<forall>a < next_addr w. heap w' a = heap w a) \<and>
        (\<forall>i < length xs. heap w' (next_addr w + i) = xs ! i)"
proof (induction xs arbitrary: w)
  case Nil
  show ?case by simp
next
  case (Cons x xs)
  let ?w1 = "w\<lparr>heap := (heap w)(next_addr w := x), next_addr := Suc (next_addr w)\<rparr>"
  from Cons.IH[of ?w1] obtain w' where
    t: "new_tensor xs ?w1 = ([next_addr ?w1 ..< next_addr ?w1 + length xs], w')"
    and n: "next_addr w' = next_addr ?w1 + length xs"
    and d: "drawn w' = drawn ?w1"
    and f: "\<forall>a < next_addr ?w1. heap w' a = heap ?w1 a"
    and c: "\<forall>i < length xs. heap w' (next_addr ?w1 + i) = xs ! i"
    by blast
  show ?case
  proof (intro exI[of _ w'] conjI allI impI)
    show "new_tensor (x # xs) w = ([next_addr w ..< next_addr w + length (x # xs)], w')"
      using t by (simp add: Let_def upt_shift del: upt_Suc)
    show "next_addr w' = next_addr w + length (x # xs)" using n by simp
    show "drawn w' = drawn w" using d by simp
    show "heap w' a = heap w a" if "a < next_addr w" for a
      using f that by simp
    show "heap w' (next_addr w + i) = (x # xs) ! i" if "i < length (x # xs)" for i
    proof (cases i)
      case 0
      then show ?thesis using f by simp
    next
      case (Suc i')
      then show ?thesis using c that by simp
    qed
  qed
qed

lemma random_choice_02:
  "random_choice g [0, 2] w =
     (Inr (if g (drawn w) mod 2 = 0 then 0 else 2), w\<lparr>drawn := Suc (drawn w)\<rparr>)"
proof (cases "g (drawn w) mod 2 = 0")
  case True
  then have "g (drawn w) mod Suc (Suc 0) = 0" by (simp add: numeral_2_eq_2)
  with True show ?thesis by (simp add: random_choice_def)
next
  case False
  then have "g (drawn w) mod 2 = 1" by arith
  then have "g (drawn w) mod Suc (Suc 0) = Suc 0" by (simp add: numeral_2_eq_2)
  with False show ?thesis by (simp add: random_choice_def)
qed

lemma corrupt_row_spec:
  assumes "2 \<le> ne"
  shows "corrupt_row g ne t w =
           Inr (next_addr w,
                w\<lparr>heap := (heap w)(next_addr w := corrupted g ne (heap w t) (drawn w)),
                  next_addr := Suc (next_addr w), drawn := Suc (Suc (drawn w))\<rparr>)"
proof -
  obtain h r tl where x: "heap w t = (h, r, tl)" by (cases "heap w t")
  show ?thesis using assms x
    by (simp add: corrupt_row_def deepcopy_def random_choice_02 randint_exclude_def
        store_item_def corrupted_def Let_def)
qed

lemma corrupt_batch_spec:
  assumes "2 \<le> ne" "\<forall>a \<in> set ts. a < next_addr w"
  shows "\<exists>w'. corrupt_batch g ne ts acc w =
                 Inr (acc @ [next_addr w ..< next_addr w + length ts], w') \<and>
          next_addr w' = next_addr w + length ts \<and>
          drawn w' = drawn w + 2 * length ts \<and>
          (\<forall>a < next_addr w. heap w' a = heap w a) \<and>
          (\<forall>i < length ts.
             heap w' (next_addr w + i) = corrupted g ne (heap w (ts ! i)) (drawn w + 2 * i))"
  using assms(2)
proof (induction ts arbitrary: acc w)
  case Nil
  show ?case by simp
next
  case (Cons t ts)
  define n where "n = next_addr w"
  define w1 where "w1 = w\<lparr>heap := (heap w)(n := corrupted g ne (heap w t) (drawn w)),
               next_addr := Suc n, drawn := Suc (Suc (drawn w))\<rparr>"
  have r: "corrupt_row g ne t w = Inr (n, w1)"
    unfolding n_def w1_def using assms(1) by (rule corrupt_row_spec)
  have w1: "next_addr w1 = Suc n" "drawn w1 = Suc (Suc (drawn w))"
    "heap w1 = (heap w)(n := corrupted g ne (heap w t) (drawn w))"
    by (simp_all add: w1_def)
  have "\<forall>a \<in> set ts. a < next_addr w1" using Cons.prems by (auto simp: w1 n_def)
  from Cons.IH[OF this, of "acc @ [n]"] obtain w' where
    b: "corrupt_batch g ne ts (acc @ [n]) w1 =
          Inr ((acc @ [n]) @ [next_addr w1 ..< next_addr w1 + length ts], w')"
    and n: "next_addr w' = next_addr w1 + length ts"
    and d: "drawn w' = drawn w1 + 2 * length ts"
    and f: "\<forall>a < next_addr w1. heap w' a = heap w1 a"
    and c: "\<forall>i < length ts.
             heap w' (next_addr w1 + i) = corrupted g ne (heap w1 (ts ! i)) (drawn w1 + 2 * i)"
    by blast
  show ?case unfolding n_def[symmetric]
  proof (intro exI[of _ w'] conjI allI impI)
    show "corrupt_batch g ne (t # ts) acc w = Inr (acc @ [n ..< n + length (t # ts)], w')"
      using r b by (simp add: w1 upt_shift del: upt_Suc)
    show "next_addr w' = n + length (t # ts)" using n by (simp add: w1)
    show "drawn w' = drawn w + 2 * length (t # ts)" using d by (simp add: w1)
    show "heap w' a = heap w a" if "a < n" for a
      using f that by (simp add: w1)
    show "heap w' (n + i) = corrupted g ne (heap w ((t # ts) ! i)) (drawn w + 2 * i)"
      if "i < length (t # ts)" for i
    proof (cases i)
      case 0
      then show ?thesis using f by (simp add: w1)
    next
      case (Suc i')
      with that have i': "i' < length ts" by simp
      then have "ts ! i' < n" using Cons.prems by (simp add: n_def)
      then have "heap w1 (ts ! i') = heap w (ts ! i')" by (simp add: w1)
      then show ?thesis using c i' Suc by (simp add: w1)
    qed
  qed
qed

lemma block_index_less: "j < n \<Longrightarrow> i < b \<Longrightarrow> j * b + i < n * (b::nat)"
proof -
  assume j: "j < n" and i: "i < b"
  have "j * b + i < j * b + b" using i by simp
  also have "\<dots> = Suc j * b" by simp
  also have "\<dots> \<le> n * b" using j by (intro mult_le_mono1) simp
  finally show ?thesis .
qed

lemma corrupt_rounds_spec:
  assumes "2 \<le> ne" "\<forall>a \<in> set samples. a < next_addr w"
  shows "\<exists>w'. corrupt_rounds g ne samples n acc w =
                 Inr (acc @ [next_addr w ..< next_addr w + n * length samples], w') \<and>
          next_addr w' = next_addr w + n * length samples \<and>
          drawn w' = drawn w + 2 * (n * length samples) \<and>
          (\<forall>a < next_addr w. heap w' a = heap w a) \<and>
          (\<forall>j < n. \<forall>i < length samples.
             heap w' (next_addr w + (j * length samples + i)) =
               corrupted g ne (heap w (samples ! i)) (drawn w + 2 * (j * length samples + i)))"
  using assms(2)
proof (induction n arbitrary: acc w)
  case 0
  show ?case by simp
next
  case (Suc n)
  define b where "b = length samples"
  define n0 where "n0 = next_addr w"
  from corrupt_batch_spec[OF assms(1) Suc.prems, of g acc] obtain w1 where
    r: "corrupt_batch g ne samples acc w = Inr (acc @ [n0 ..< n0 + b], w1)"
    and n1: "next_addr w1 = n0 + b"
    and d1: "drawn w1 = drawn w + 2 * b"
    and f1: "\<forall>a < n0. heap w1 a = heap w a"
    and c1: "\<forall>i < b. heap w1 (n0 + i) = corrupted g ne (heap w (samples ! i)) (drawn w + 2 * i)"
    unfolding b_def n0_def by blast
  have al: "\<forall>a \<in> set samples. a < next_addr w1"
    using Suc.prems n1 by (auto simp: n0_def)
  from Suc.IH[OF al, of "acc @ [n0 ..< n0 + b]"] obtain w' where
    r': "corrupt_rounds g ne samples n (acc @ [n0 ..< n0 + b]) w1 =
           Inr ((acc @ [n0 ..< n0 + b]) @ [n0 + b ..< n0 + b + n * b], w')"
    and n': "next_addr w' = n0 + b + n * b"
    and d': "drawn w' = drawn w1 + 2 * (n * b)"
    and f': "\<forall>a < n0 + b. heap w' a = heap w1 a"
    and c': "\<forall>j < n. \<forall>i < b. heap w' (n0 + b + (j * b + i)) =
               corrupted g ne (heap w1 (samples ! i)) (drawn w1 + 2 * (j * b + i))"
    unfolding b_def[symmetric] n1 by blast
  have app: "[n0 ..< n0 + b] @ [n0 + b ..< n0 + b + n * b] = [n0 ..< n0 + Suc n * b]"
    using upt_add_eq_append[of n0 "n0 + b" "n * b"] by (simp add: add.assoc)
  show ?case unfolding b_def[symmetric] n0_def[symmetric]
  proof (intro exI[of _ w'] conjI allI impI)
    show "corrupt_rounds g ne samples (Suc n) acc w = Inr (acc @ [n0 ..< n0 + Suc n * b], w')"
      using r r' app by simp
    show "next_addr w' = n0 + Suc n * b" using n' by simp
    show "drawn w' = drawn w + 2 * (Suc n * b)" using d' d1 by simp
    show "heap w' a = heap w a" if "a < n0" for a
      using f' f1 that by simp
    show "heap w' (n0 + (j * b + i)) =
            corrupted g ne (heap w (samples ! i)) (drawn w + 2 * (j * b + i))"
      if "j < Suc n" "i < b" for j i
    proof (cases j)
      case 0
      have "heap w' (n0 + i) = heap w1 (n0 + i)" using f' that(2) by simp
      then show ?thesis using c1 that(2) 0 by simp
    next
      case (Suc j')
      with that have j': "j' < n" by simp
      have "samples ! i < n0" using Suc.prems that(2) by (simp add: n0_def b_def)
      then have h: "heap w1 (samples ! i) = heap w (samples ! i)" using f1 by simp
      have "heap w' (n0 + b + (j' * b + i)) =
              corrupted g ne (heap w1 (samples ! i)) (drawn w1 + 2 * (j' * b + i))"
        using c' j' that(2) by simp
      moreover have "n0 + b + (j' * b + i) = n0 + (j * b + i)" using Suc by simp
      moreover have "drawn w1 + 2 * (j' * b + i) = drawn w + 2 * (j * b + i)"
        using Suc d1 by simp
      ultimately show ?thesis using h by (simp only:)
    qed
  qed
qed

lemma sample_negative_spec:
  assumes "2 \<le> num_ents s" "1 \<le> num_negative s" "samples \<noteq> []"
    "\<forall>a \<in> set samples. a < next_addr w"
  shows "\<exists>negs w'. sample_negative g s samples w = Inr (negs, w') \<and>
          length negs = nat (num_negative s) * length samples \<and>
          next_addr w \<le> next_addr w' \<and>
          (\<forall>a < next_addr w. heap w' a = heap w a) \<and>
          (\<forall>j < nat (num_negative s). \<forall>i < length samples.
             heap w' (negs ! (j * length samples + i)) =
               corrupted g (num_ents s) (heap w (samples ! i))
                 (drawn w + 2 * (j * length samples + i)))"
proof -
  define b where "b = length samples"
  define n where "n = nat (num_negative s)"
  define n0 where "n0 = next_addr w"
  have npos: "0 < n" using assms(2) by (simp add: n_def)
  have bpos: "0 < b" using assms(3) by (simp add: b_def)
  from corrupt_rounds_spec[OF assms(1) assms(4), of g n "[]"] obtain w1 where
    r: "corrupt_rounds g (num_ents s) samples n [] w = Inr ([n0 ..< n0 + n * b], w1)"
    and n1: "next_addr w1 = n0 + n * b"
    and f1: "\<forall>a < n0. heap w1 a = heap w a"
    and c1: "\<forall>j < n. \<forall>i < b. heap w1 (n0 + (j * b + i)) =
               corrupted g (num_ents s) (heap w (samples ! i)) (drawn w + 2 * (j * b + i))"
    unfolding b_def n0_def by auto
  define rows where "rows = map (heap w1) [n0 ..< n0 + n * b]"
  have lr: "length rows = n * b" by (simp add: rows_def)
  from new_tensor_spec[of rows w1] obtain w2 where
    t: "new_tensor rows w1 = ([next_addr w1 ..< next_addr w1 + length rows], w2)"
    and f2: "\<forall>a < next_addr w1. heap w2 a = heap w1 a"
    and c2: "\<forall>k < length rows. heap w2 (next_addr w1 + k) = rows ! k"
    by blast
  have ne: "[n0 ..< n0 + n * b] \<noteq> []" using npos bpos by simp
  have res: "sample_negative g s samples w = Inr ([next_addr w1 ..< next_addr w1 + n * b], w2)"
    using r t ne unfolding sample_negative_def torch_stack_def n_def[symmetric] lr
    by (simp add: rows_def)
  show ?thesis unfolding b_def[symmetric] n_def[symmetric] n0_def[symmetric]
  proof (intro exI[of _ "[next_addr w1 ..< next_addr w1 + n * b]"] exI[of _ w2] conjI allI impI)
    show "sample_negative g s samples w = Inr ([next_addr w1 ..< next_addr w1 + n * b], w2)"
      by (rule res)
    show "length [next_addr w1 ..< next_addr w1 + n * b] = n * b" by simp
    have "next_addr w2 = next_addr w1 + length rows"
      using new_tensor_spec[of rows w1] t by auto
    then show "n0 \<le> next_addr w2" using n1 by simp
    show "heap w2 a = heap w a" if "a < n0" for a
      using f2 f1 n1 that by simp
    show "heap w2 ([next_addr w1 ..< next_addr w1 + n * b] ! (j * b + i)) =
            corrupted g (num_ents s) (heap w (samples ! i)) (drawn w + 2 * (j * b + i))"
      if "j < n" "i < b" for j i
    proof -
      have k: "j * b + i < n * b" using that by (rule block_index_less)
      then have "[next_addr w1 ..< next_addr w1 + n * b] ! (j * b + i) = next_addr w1 + (j * b + i)"
        by simp
      moreover have "heap w2 (next_addr w1 + (j * b + i)) = rows ! (j * b + i)"
        using c2 k lr by simp
      moreover have "rows ! (j * b + i) = heap w1 (n0 + (j * b + i))"
        using k by (simp add: rows_def)
      ultimately show ?thesis using c1 that by simp
    qed
  qed
qed

lemma corrupted_props:
  assumes "2 \<le> ne" "corrupted g ne (h, r, t) d = (h', r', t')"
  shows "r' = r \<and> ((h' \<noteq> h \<and> t' = t \<and> 0 \<le> h' \<and> h' < ne) \<or>
                    (h' = h \<and> t' \<noteq> t \<and> 0 \<le> t' \<and> t' < ne))"
proof -
  define k where "k = int (g (Suc d)) mod (ne - 1)"
  have k: "0 \<le> k" "k < ne - 1" using assms(1) by (simp_all add: k_def)
  show ?thesis
    using assms(2) k unfolding corrupted_def k_def[symmetric]
    by (auto simp: Let_def split: if_splits)
qed

text \<open>
  C4. Spec-modelled through \<^const>\<open>randint_exclude\<close>. With at least two entities, at
  least one negative per positive and a non-empty batch of allocated rows,
  \<^verbatim>\<open>_sample_negative\<close> returns, and every negative \<open>k\<close> differs from its positive (row
  \<open>k mod b\<close> of the batch) in exactly one of head and tail; the relation is kept, and
  the new entity differs from the one it replaces and lies in \<open>[0, num_ents)\<close>.
\<close>

theorem sample_negative_corrupts:
  assumes "2 \<le> num_ents s" "1 \<le> num_negative s" "samples \<noteq> []"
    "\<forall>a \<in> set samples. a < next_addr w"
  shows "\<exists>negs w'. sample_negative g s samples w = Inr (negs, w') \<and>
     (\<forall>k < length negs.
        case heap w' (samples ! (k mod length samples)) of (h, r, t) \<Rightarrow>
        case heap w' (negs ! k) of (h', r', t') \<Rightarrow>
          r' = r \<and>
          ((h' \<noteq> h \<and> t' = t \<and> 0 \<le> h' \<and> h' < num_ents s) \<or>
           (h' = h \<and> t' \<noteq> t \<and> 0 \<le> t' \<and> t' < num_ents s)))"
proof -
  define b where "b = length samples"
  have bpos: "0 < b" using assms(3) by (simp add: b_def)
  from sample_negative_spec[OF assms, of g] obtain negs w' where
    r: "sample_negative g s samples w = Inr (negs, w')"
    and l: "length negs = nat (num_negative s) * b"
    and f: "\<forall>a < next_addr w. heap w' a = heap w a"
    and c: "\<forall>j < nat (num_negative s). \<forall>i < b.
             heap w' (negs ! (j * b + i)) =
               corrupted g (num_ents s) (heap w (samples ! i)) (drawn w + 2 * (j * b + i))"
    unfolding b_def by blast
  have "case heap w' (samples ! (k mod b)) of (h, r, t) \<Rightarrow>
        case heap w' (negs ! k) of (h', r', t') \<Rightarrow>
          r' = r \<and>
          ((h' \<noteq> h \<and> t' = t \<and> 0 \<le> h' \<and> h' < num_ents s) \<or>
           (h' = h \<and> t' \<noteq> t \<and> 0 \<le> t' \<and> t' < num_ents s))"
    if k: "k < length negs" for k
  proof -
    have i: "k mod b < b" using bpos by simp
    have "k div b * b < nat (num_negative s) * b"
      using k l by (metis div_times_less_eq_dividend le_less_trans)
    then have j: "k div b < nat (num_negative s)" by simp
    have "samples ! (k mod b) < next_addr w" using assms(4) i by (simp add: b_def)
    then have same: "heap w' (samples ! (k mod b)) = heap w (samples ! (k mod b))"
      using f by simp
    obtain h r t where x: "heap w (samples ! (k mod b)) = (h, r, t)"
      by (cases "heap w (samples ! (k mod b))")
    obtain h' r' t' where y: "heap w' (negs ! k) = (h', r', t')"
      by (cases "heap w' (negs ! k)")
    have "heap w' (negs ! (k div b * b + k mod b)) =
            corrupted g (num_ents s) (heap w (samples ! (k mod b)))
              (drawn w + 2 * (k div b * b + k mod b))"
      using c j i by blast
    then have "corrupted g (num_ents s) (h, r, t) (drawn w + 2 * k) = (h', r', t')"
      using x y by simp
    from corrupted_props[OF assms(1) this] show ?thesis
      using same x y by simp
  qed
  with r show ?thesis unfolding b_def by blast
qed

theorem sample_negative_corrupts_witness:
  "\<exists>negs w'.
     sample_negative example_stream
       (Sampler_init example_triplets 2 3 False \<lparr>num_negative = 1\<rparr>) [0] one_row_world =
       Inr (negs, w') \<and>
     (\<forall>k < length negs.
        case heap w' ([0] ! (k mod length [0::nat])) of (h, r, t) \<Rightarrow>
        case heap w' (negs ! k) of (h', r', t') \<Rightarrow>
          r' = r \<and>
          ((h' \<noteq> h \<and> t' = t \<and> 0 \<le> h' \<and>
            h' < num_ents (Sampler_init example_triplets 2 3 False \<lparr>num_negative = 1\<rparr>)) \<or>
           (h' = h \<and> t' \<noteq> t \<and> 0 \<le> t' \<and>
            t' < num_ents (Sampler_init example_triplets 2 3 False \<lparr>num_negative = 1\<rparr>))))"
  by (rule sample_negative_corrupts)
     (simp_all add: Sampler_init_def Let_def one_row_world_def)



section \<open>Batches of the pairwise sampler\<close>


lemma set_upt_less: "\<forall>a \<in> set [n..<n + l]. a < n + (l::nat)"
  by simp










section \<open>Batches of the multi-label sampler\<close>

text \<open>A lookup adds at most a key with no entities: no bucket changes.\<close>

lemma get_labels_loop_bucket:
  "get_labels_loop i xs y d = Inr (y', d') \<Longrightarrow> bucket d' k = bucket d k"
proof (induction xs arbitrary: i y d)
  case Nil
  then show ?case by simp
next
  case (Cons x xs)
  obtain lbls d1 where g: "dd_getitem d x = (lbls, d1)" by (cases "dd_getitem d x")
  have b1: "bucket d1 k = bucket d k"
    using g by (auto simp: dd_getitem_def bucket_def map_add_def split: option.splits if_splits)
  from Cons.prems g obtain row where
    "get_labels_loop (Suc i) xs (y[i := row]) d1 = Inr (y', d')"
    by (auto split: sum.splits)
  from Cons.IH[OF this] b1 show ?case by simp
qed

text \<open>
  C1, at the scenario of the specification in non-inverse mode. The first batch after
  \<^verbatim>\<open>reset()\<close> holds the keys \<open>("head", 1, 2)\<close> and \<open>("tail", 0, 0)\<close>, whose buckets are
  \<open>{0}\<close> and \<open>{1}\<close>; the label matrix returned for it is all zeros. The array of the
  batch holds the strings \<open>'head', '1', '2'\<close>, and the tuple of these strings is not a
  key of the index.
\<close>

theorem noninverse_labels_all_zero:
  "(case One_to_N_next noninverse_example of
      Inl e \<Rightarrow> False
    | Inr (b, s') \<Rightarrow>
        batch_lbls b = [[0, 0, 0], [0, 0, 0]] \<and>
        trip_type b = Some [PStr ''head'', PStr ''tail''] \<and>
        batch_ix b = [[1, 2], [0, 0]]) \<and>
   py_slice (keys noninverse_example) 0 2 =
     [[PStr ''head'', PInt 1, PInt 2], [PStr ''tail'', PInt 0, PInt 0]] \<and>
   bucket (index noninverse_example) [PStr ''head'', PInt 1, PInt 2] = {0} \<and>
   bucket (index noninverse_example) [PStr ''tail'', PInt 0, PInt 0] = {1}"
  by code_simp

text \<open>
  C7, at the same input. The two lookups of that batch miss, and the
  \<^verbatim>\<open>defaultdict\<close> inserts the two string keys with empty lists: the index has eight keys
  instead of six, and \<^verbatim>\<open>len\<close> of the sampler rises from 3 to 4.
\<close>

theorem noninverse_lookup_grows_index:
  "(case One_to_N_next noninverse_example of
      Inl e \<Rightarrow> False
    | Inr (b, s') \<Rightarrow>
        index s' =
          index noninverse_example @
          [([PStr ''head'', PStr ''1'', PStr ''2''], []),
           ([PStr ''tail'', PStr ''0'', PStr ''0''], [])] \<and>
        One_to_N_len s' = Inr 4) \<and>
   One_to_N_len noninverse_example = Inr 3 \<and>
   length (index noninverse_example) = 6"
  by code_simp

end
